theory Spec2Isabelle
  imports Complex_Main "HOL-Library.AList"
begin

section \<open>JSON values and shapes\<close>

text \<open>
  The values that \<^verbatim>\<open>JSON.parse\<close> and \<^verbatim>\<open>resp.json()\<close> produce. A number is an IEEE double in
  the source; every finite double is a rational, and the synthesizer only ever asks a
  number for its \<^verbatim>\<open>typeof\<close> and for its truthiness (zero or not). An object is the list
  of its own enumerable properties in the order \<^verbatim>\<open>Object.entries\<close> yields them, its keys
  pairwise distinct. An optional field that is \<^verbatim>\<open>undefined\<close> is \<open>None\<close>.
\<close>

datatype json =
    JNull
  | JBool bool
  | JNum rat
  | JStr string
  | JArr "json list"
  | JObj "(string \<times> json) list"

text \<open>
  What \<^verbatim>\<open>inferShape\<close> returns: a type-name string (\<^verbatim>\<open>'null'\<close>, \<^verbatim>\<open>'unknown'\<close> or a result of
  \<^verbatim>\<open>typeof\<close>), an array of shapes, or an object from keys to shapes.
\<close>

datatype shape =
    Marker string
  | SList "shape list"
  | SObj "(string \<times> shape) list"

text \<open>
  \<^verbatim>\<open>
  function inferShape(obj: any): any {
    if (Array.isArray(obj)) return [obj.length > 0 ? inferShape(obj[0]) : 'unknown'];
    if (obj === null) return 'null';
    if (typeof obj !== 'object') return typeof obj;
    const shape: any = {};
    for (const [k, v] of Object.entries(obj)) shape[k] = inferShape(v);
    return shape;
  }
  \<close>
\<close>

text \<open>
  The assignment \<^verbatim>\<open>shape[k] = ...\<close> creates an own property for every key but
  \<^verbatim>\<open>__proto__\<close>: on a plain object that key is the accessor of \<^verbatim>\<open>Object.prototype\<close>, so
  assigning to it adds no property and the key is missing from the shape.
\<close>

fun inferShape :: "json \<Rightarrow> shape" where
  "inferShape (JArr []) = SList [Marker ''unknown'']"
| "inferShape (JArr (x # xs)) = SList [inferShape x]"
| "inferShape JNull = Marker ''null''"
| "inferShape (JBool b) = Marker ''boolean''"
| "inferShape (JNum n) = Marker ''number''"
| "inferShape (JStr s) = Marker ''string''"
| "inferShape (JObj kvs) =
     SObj (map (\<lambda>kv. (fst kv, inferShape (snd kv)))
               (filter (\<lambda>kv. fst kv \<noteq> ''__proto__'') kvs))"

text \<open>JavaScript truthiness of an optional JSON value, as \<^verbatim>\<open>x ? a : b\<close> and \<^verbatim>\<open>x || y\<close> test it.\<close>

fun truthy :: "json option \<Rightarrow> bool" where
  "truthy None = False"
| "truthy (Some JNull) = False"
| "truthy (Some (JBool b)) = b"
| "truthy (Some (JNum n)) = (n \<noteq> 0)"
| "truthy (Some (JStr s)) = (s \<noteq> [])"
| "truthy (Some (JArr xs)) = True"
| "truthy (Some (JObj kvs)) = True"

section \<open>The accumulation store and the endpoint catalog\<close>

text \<open>
  One captured request/response pair; the field \<^verbatim>\<open>method\<close> of the source is
  \<open>http_method\<close> here. Of the fields of \<^verbatim>\<open>CapturedEndpoint\<close> the synthesizer reads
  these six; the headers, content type and timestamp never reach the catalog.
  \<^verbatim>\<open>responseStatus\<close> and the two bodies are \<open>None\<close> while they are \<^verbatim>\<open>undefined\<close> (no
  response attached yet, no JSON body).
\<close>

record CapturedEndpoint =
  http_method :: string
  path :: string
  queryParams :: "string list"
  requestBody :: "json option"
  responseStatus :: "int option"
  responseBody :: "json option"

record DiscoveredAPI =
  http_method :: string
  path :: string
  pathTemplate :: string
  queryParams :: "string list"
  requestBodyShape :: "shape option"
  responseBodyShape :: "shape option"
  responseStatus :: "int option"
  isListEndpoint :: bool
  isMutation :: bool
  sampleCount :: nat
  toolName :: string

text \<open>
  \<^verbatim>\<open>captured: Map<string, CapturedEndpoint[]>\<close>, keyed by \<^verbatim>\<open>"METHOD /path"\<close>: the entries of the
  map in insertion order, which is the order a \<^verbatim>\<open>for ... of\<close> loop visits them.
\<close>

type_synonym store = "(string \<times> CapturedEndpoint list) list"

text \<open>The key of the request handler: \<^verbatim>\<open>const key = `${method} ${path}`\<close>.\<close>

definition routeKey :: "string \<Rightarrow> string \<Rightarrow> string" where
  "routeKey m p = m @ '' '' @ p"

subsection \<open>Path templates\<close>

definition is_digit :: "char \<Rightarrow> bool" where
  "is_digit c = (c \<in> set ''0123456789'')"

text \<open>The class \<^verbatim>\<open>[a-f0-9]\<close> under the \<^verbatim>\<open>i\<close> flag.\<close>

definition is_hex :: "char \<Rightarrow> bool" where
  "is_hex c = (c \<in> set ''0123456789abcdefABCDEF'')"

text \<open>
  \<^verbatim>\<open>sample.path.replace(/\/[a-f0-9]{8,}|\/[0-9]+(?=\/|$)/gi, '/{id}')\<close>: a left-to-right scan.
  At a slash the first alternative takes the longest run of hexadecimal digits and
  matches when the run has eight or more; it asks nothing of what follows the run. The
  second alternative takes the longest run of decimal digits and matches when the run
  is not empty and the path ends or a slash follows (a shorter run is followed by a
  digit, so backtracking finds nothing more). After a match the scan resumes behind it;
  everywhere else the character is copied.
\<close>

function parameterizePath :: "string \<Rightarrow> string" where
  "parameterizePath [] = []"
| "parameterizePath (c # cs) =
     (if c = CHR ''/'' \<and> 8 \<le> length (takeWhile is_hex cs)
      then ''/{id}'' @ parameterizePath (dropWhile is_hex cs)
      else if c = CHR ''/'' \<and> takeWhile is_digit cs \<noteq> []
              \<and> (case dropWhile is_digit cs of [] \<Rightarrow> True | d # _ \<Rightarrow> d = CHR ''/'')
      then ''/{id}'' @ parameterizePath (dropWhile is_digit cs)
      else c # parameterizePath cs)"
  by pat_completeness auto
termination
  by (relation "measure length") (auto simp: length_dropWhile_le less_Suc_eq_le)

subsection \<open>Tool names\<close>

text \<open>\<^verbatim>\<open>String.prototype.split\<close> on a one-character separator.\<close>

fun split_str :: "char \<Rightarrow> string \<Rightarrow> string list" where
  "split_str sep [] = [[]]"
| "split_str sep (c # cs) =
     (if c = sep then [] # split_str sep cs
      else (case split_str sep cs of [] \<Rightarrow> [[c]] | w # ws \<Rightarrow> (c # w) # ws))"

definition toLowerCase :: "string \<Rightarrow> string" where
  "toLowerCase s =
     map (\<lambda>c. case map_of (zip ''ABCDEFGHIJKLMNOPQRSTUVWXYZ'' ''abcdefghijklmnopqrstuvwxyz'') c of
                None \<Rightarrow> c | Some l \<Rightarrow> l) s"

text \<open>\<^verbatim>\<open>s.match(/^(api|v[0-9]|rest|now)$/i)\<close>\<close>

definition is_boilerplate :: "string \<Rightarrow> bool" where
  "is_boilerplate s =
     (let l = toLowerCase s in
        l = ''api''
        \<or> (case l of [v, d] \<Rightarrow> v = CHR ''v'' \<and> is_digit d | _ \<Rightarrow> False)
        \<or> l = ''rest'' \<or> l = ''now'')"

definition startsWith :: "string \<Rightarrow> string \<Rightarrow> bool" where
  "startsWith s pre = (take (length pre) s = pre)"

definition endsWith :: "string \<Rightarrow> string \<Rightarrow> bool" where
  "endsWith s suf = (length suf \<le> length s \<and> drop (length s - length suf) s = suf)"

text \<open>\<^verbatim>\<open>resource.replace(/s$/, '')\<close>\<close>

definition strip_final_s :: "string \<Rightarrow> string" where
  "strip_final_s r = (if r \<noteq> [] \<and> last r = CHR ''s'' then butlast r else r)"

text \<open>
  \<^verbatim>\<open>
  function generateToolName(method: string, pathTemplate: string): string {
    const segments = pathTemplate.split('/').filter(s => s && !s.startsWith('{')
                       && !s.match(/^(api|v[0-9]|rest|now)$/i));
    const resource = segments[segments.length - 1] || 'resource';
    const prefix = { GET: 'get', POST: 'create', PUT: 'update', PATCH: 'update',
                     DELETE: 'delete' }[method] || method.toLowerCase();
    if (pathTemplate.endsWith('/{id}')) return `${prefix}_${resource.replace(/s$/, '')}`;
    if (method === 'GET') return `list_${resource}`;
    return `${prefix}_${resource}`;
  }
  \<close>
  The segments that pass the filter are non-empty, so \<^verbatim>\<open>|| 'resource'\<close> fires exactly
  when there is none. The method is an HTTP verb, never the name of a property that
  the literal inherits from \<^verbatim>\<open>Object.prototype\<close>.
\<close>

definition generateToolName :: "string \<Rightarrow> string \<Rightarrow> string" where
  "generateToolName m tpl =
     (let segments = filter (\<lambda>s. s \<noteq> [] \<and> \<not> startsWith s ''{'' \<and> \<not> is_boilerplate s)
                            (split_str (CHR ''/'') tpl);
          resource = (if segments = [] then ''resource'' else last segments);
          prefix = (if m = ''GET'' then ''get''
                    else if m = ''POST'' then ''create''
                    else if m = ''PUT'' then ''update''
                    else if m = ''PATCH'' then ''update''
                    else if m = ''DELETE'' then ''delete''
                    else toLowerCase m)
      in if endsWith tpl ''/{id}'' then prefix @ ''_'' @ strip_final_s resource
         else if m = ''GET'' then ''list_'' @ resource
         else prefix @ ''_'' @ resource)"

subsection \<open>Synthesis\<close>

text \<open>The filter of \<^verbatim>\<open>successEntries\<close>: \<^verbatim>\<open>e.responseStatus >= 200 && e.responseStatus < 400\<close>;
  both comparisons are false on \<^verbatim>\<open>undefined\<close>.\<close>

definition successful :: "CapturedEndpoint \<Rightarrow> bool" where
  "successful e =
     (case CapturedEndpoint.responseStatus e of None \<Rightarrow> False | Some s \<Rightarrow> 200 \<le> s \<and> s < 400)"

text \<open>\<^verbatim>\<open>[...new Set(xs)]\<close>: the first occurrence of each element, in order.\<close>

definition uniq :: "'a list \<Rightarrow> 'a list" where
  "uniq xs = rev (remdups (rev xs))"

text \<open>
  \<^verbatim>\<open>obj?.results\<close>: the own property of an object; \<^verbatim>\<open>undefined\<close> on \<^verbatim>\<open>undefined\<close>, on
  \<^verbatim>\<open>null\<close>, on a primitive and on an array.
\<close>

definition results_field :: "json option \<Rightarrow> json option" where
  "results_field body = (case body of Some (JObj kvs) \<Rightarrow> map_of kvs ''results'' | _ \<Rightarrow> None)"

text \<open>\<^verbatim>\<open>Array.isArray(sample.responseBody?.results || sample.responseBody)\<close>\<close>

definition isListBody :: "json option \<Rightarrow> bool" where
  "isListBody body =
     (case (if truthy (results_field body) then results_field body else body) of
        Some (JArr xs) \<Rightarrow> True
      | _ \<Rightarrow> False)"

text \<open>
  The body of the loop of \<^verbatim>\<open>buildEndpointMap\<close> for one map entry: \<open>None\<close> where the
  source says \<^verbatim>\<open>continue\<close>, the pushed descriptor otherwise.
  \<^verbatim>\<open>
    const successEntries = entries.filter(e => e.responseStatus >= 200 && e.responseStatus < 400);
    if (successEntries.length === 0) continue;
    const sample = successEntries[0];
    const pathTemplate = sample.path.replace(..., '/{id}');
    const responseShape = sample.responseBody ? inferShape(sample.responseBody) : undefined;
    const requestShape = sample.requestBody ? inferShape(sample.requestBody) : undefined;
    const allParams = [...new Set(entries.flatMap(e => e.queryParams))];
    const toolName = generateToolName(sample.method, pathTemplate);
    apis.push({ method: sample.method, path: sample.path, pathTemplate,
      queryParams: allParams, requestBodyShape: requestShape,
      responseBodyShape: responseShape, responseStatus: sample.responseStatus,
      isListEndpoint: Array.isArray(sample.responseBody?.results || sample.responseBody),
      isMutation: ['POST', 'PUT', 'PATCH', 'DELETE'].includes(sample.method),
      sampleCount: successEntries.length, toolName });
  \<close>
\<close>

definition synthesize :: "string \<times> CapturedEndpoint list \<Rightarrow> DiscoveredAPI option" where
  "synthesize kv =
     (let entries = snd kv in
      case filter successful entries of
        [] \<Rightarrow> None
      | sample # others \<Rightarrow>
          (let tpl = parameterizePath (CapturedEndpoint.path sample) in
           Some \<lparr> DiscoveredAPI.http_method = CapturedEndpoint.http_method sample,
                  path = CapturedEndpoint.path sample,
                  pathTemplate = tpl,
                  queryParams = uniq (concat (map CapturedEndpoint.queryParams entries)),
                  requestBodyShape =
                    (if truthy (requestBody sample)
                     then map_option inferShape (requestBody sample) else None),
                  responseBodyShape =
                    (if truthy (responseBody sample)
                     then map_option inferShape (responseBody sample) else None),
                  responseStatus = CapturedEndpoint.responseStatus sample,
                  isListEndpoint = isListBody (responseBody sample),
                  isMutation = (CapturedEndpoint.http_method sample
                                  \<in> set [''POST'', ''PUT'', ''PATCH'', ''DELETE'']),
                  sampleCount = Suc (length others),
                  toolName = generateToolName (CapturedEndpoint.http_method sample) tpl \<rparr>))"

text \<open>\<^verbatim>\<open>for (const [key, entries] of captured) { ... }  return apis;\<close>\<close>

definition buildEndpointMap :: "store \<Rightarrow> DiscoveredAPI list" where
  "buildEndpointMap captured = List.map_filter synthesize captured"

subsection \<open>Identifier segments\<close>

text \<open>
  A path segment that the template regex replaces as a whole: decimal digits only, or
  eight or more hexadecimal digits only.
\<close>

definition id_segment :: "string \<Rightarrow> bool" where
  "id_segment s = (s \<noteq> [] \<and> (list_all is_digit s \<or> (list_all is_hex s \<and> 8 \<le> length s)))"

text \<open>What may follow a segment: the end of the path or the slash of the next segment.\<close>

definition at_boundary :: "string \<Rightarrow> bool" where
  "at_boundary rest = (case rest of [] \<Rightarrow> True | d # _ \<Rightarrow> d = CHR ''/'')"

subsection \<open>Keys of descriptors and well-formed stores\<close>

text \<open>The pair that the catalog is meant to be unique on.\<close>

definition groupKey :: "DiscoveredAPI \<Rightarrow> string \<times> string" where
  "groupKey d = (DiscoveredAPI.http_method d, pathTemplate d)"

text \<open>The RouteKey of a descriptor: its method and its raw path.\<close>

definition descriptorKey :: "DiscoveredAPI \<Rightarrow> string" where
  "descriptorKey d = routeKey (DiscoveredAPI.http_method d) (DiscoveredAPI.path d)"

text \<open>
  What the request handler establishes: it files every entry under
  \<^verbatim>\<open>`${method} ${path}`\<close> of that entry (\<^verbatim>\<open>captured.get(key)!.push(entry)\<close>), and a
  \<^verbatim>\<open>Map\<close> holds each key once.
\<close>

definition filed_under_own_key :: "string \<times> CapturedEndpoint list \<Rightarrow> bool" where
  "filed_under_own_key kv =
     list_all (\<lambda>e. fst kv = routeKey (CapturedEndpoint.http_method e) (CapturedEndpoint.path e)) (snd kv)"

definition wf_store :: "store \<Rightarrow> bool" where
  "wf_store captured = (distinct (map fst captured) \<and> list_all filed_under_own_key captured)"

text \<open>
  The store update of the request handler:
  \<^verbatim>\<open>if (!captured.has(key)) captured.set(key, []);  captured.get(key)!.push(entry);\<close>
\<close>

definition store_push :: "CapturedEndpoint \<Rightarrow> store \<Rightarrow> store" where
  "store_push e captured =
     (let key = routeKey (CapturedEndpoint.http_method e) (CapturedEndpoint.path e) in
      if key \<in> set (map fst captured)
      then map (\<lambda>kv. if fst kv = key then (fst kv, snd kv @ [e]) else kv) captured
      else captured @ [(key, [e])])"

subsection \<open>Sessions used as examples\<close>

definition get_call :: "string \<Rightarrow> string list \<Rightarrow> int \<Rightarrow> json option \<Rightarrow> CapturedEndpoint" where
  "get_call p qs st body =
     \<lparr> CapturedEndpoint.http_method = ''GET'', path = p, queryParams = qs, requestBody = None,
       responseStatus = Some st, responseBody = body \<rparr>"


text \<open>
  Scenario 2: one \<^verbatim>\<open>POST /api/v1/items\<close> with request body \<^verbatim>\<open>{"name":"x"}\<close> and response
  status 201; the scenario leaves the response body open.
\<close>

definition scenario2 :: "json option \<Rightarrow> store" where
  "scenario2 body =
     [(''POST /api/v1/items'',
        [\<lparr> CapturedEndpoint.http_method = ''POST'', path = ''/api/v1/items'', queryParams = [],
            requestBody = Some (JObj [(''name'', JStr ''x'')]),
            responseStatus = Some 201, responseBody = body \<rparr>])]"

text \<open>Two successful calls of one logical route with different concrete identifiers.\<close>

definition two_ids_store :: store where
  "two_ids_store =
     [(''GET /items/42'', [get_call ''/items/42'' [] 200 None]),
      (''GET /items/5f3a2b91'', [get_call ''/items/5f3a2b91'' [] 200 None])]"

text \<open>One route called twice: a failing call with a query parameter, then a successful one.\<close>

definition failed_then_ok :: "CapturedEndpoint list" where
  "failed_then_ok =
     [get_call ''/api/search'' [''debug''] 500 None,
      get_call ''/api/search'' [''page''] 200 None]"

definition failed_then_ok_store :: store where
  "failed_then_ok_store = [(''GET /api/search'', failed_then_ok)]"

section \<open>The reauthentication interceptor\<close>

text \<open>
  \<^verbatim>\<open>
  async onUnauthorized(): Promise<boolean> {
    if (Date.now() - this.lastAttempt < 60_000) return false;
    this.lastAttempt = Date.now();

    const fresh = JSON.parse(readFileSync(COOKIE_FILE, "utf-8"));
    const hash = createHash("sha256").update(fresh.headers.Cookie).digest("hex");
    if (hash === this.lastHash) return false;  // stale -- don't loop

    this.lastHash = hash;
    this.headers = fresh.headers;
    return true;  // retry with fresh creds
  }
  \<close>
  The fields that the method reads and writes. The held headers are whatever value
  \<^verbatim>\<open>fresh.headers\<close> was when it was adopted.
\<close>

record manager =
  lastAttempt :: int
  lastHash :: string
  headers :: json

text \<open>
  The two ways the method throws: \<^verbatim>\<open>readFileSync\<close> or \<^verbatim>\<open>JSON.parse\<close> fails, or the parsed
  value has no \<^verbatim>\<open>headers.Cookie\<close> string (a property read on \<^verbatim>\<open>undefined\<close>, or
  \<^verbatim>\<open>update\<close> called on something that is not a string).
\<close>

datatype refresh_error = ReadError | TypeError

text \<open>
  What a refresh can do to the outside: read the cookie file, which is where the
  credentials that the host-side login wrote arrive, or start that login itself. The
  method has a statement for the first only; starting \<^verbatim>\<open>host-auth.mjs\<close> is left to
  whoever runs \<^verbatim>\<open>reauth.sh\<close>.
\<close>

datatype effect = ReadCookieFile | InvokeLogin

text \<open>How often a series of interactions starts the login.\<close>

definition login_invocations :: "effect list \<Rightarrow> nat" where
  "login_invocations fx = length (filter (\<lambda>e. e = InvokeLogin) fx)"

text \<open>\<^verbatim>\<open>fresh.headers\<close> together with \<^verbatim>\<open>fresh.headers.Cookie\<close>, or the TypeError.\<close>

definition fresh_cookie :: "json \<Rightarrow> refresh_error + (json \<times> string)" where
  "fresh_cookie fresh =
     (case fresh of
        JObj kvs \<Rightarrow>
          (case map_of kvs ''headers'' of
             Some (JObj hs) \<Rightarrow>
               (case map_of hs ''Cookie'' of
                  Some (JStr c) \<Rightarrow> Inr (JObj hs, c)
                | _ \<Rightarrow> Inl TypeError)
           | _ \<Rightarrow> Inl TypeError)
      | _ \<Rightarrow> Inl TypeError)"

text \<open>
  One call. \<open>sha256\<close> is the hash function, \<open>now1\<close> and \<open>now2\<close> are the two readings of
  \<^verbatim>\<open>Date.now()\<close>, and \<open>file\<close> is what reading and parsing the cookie file gives at that
  moment (\<open>None\<close> when it throws). The result is the returned boolean or the exception,
  the manager afterwards, and the interactions with the outside in order.
\<close>

definition onUnauthorized ::
    "(string \<Rightarrow> string) \<Rightarrow> int \<Rightarrow> int \<Rightarrow> json option \<Rightarrow> manager
       \<Rightarrow> (refresh_error + bool) \<times> manager \<times> effect list" where
  "onUnauthorized sha256 now1 now2 file m =
     (if now1 - lastAttempt m < 60000 then (Inr False, m, [])
      else
        let m1 = m\<lparr>lastAttempt := now2\<rparr> in
        case file of
          None \<Rightarrow> (Inl ReadError, m1, [ReadCookieFile])
        | Some fresh \<Rightarrow>
            (case fresh_cookie fresh of
               Inl e \<Rightarrow> (Inl e, m1, [ReadCookieFile])
             | Inr hc \<Rightarrow>
                 (let hash = sha256 (snd hc) in
                  if hash = lastHash m then (Inr False, m1, [ReadCookieFile])
                  else (Inr True, m1\<lparr>lastHash := hash, headers := fst hc\<rparr>, [ReadCookieFile]))))"

text \<open>
  A series of calls on one manager, each with its clock readings and the file content
  of its moment: the results, the final manager and all interactions, in order.
\<close>

fun refresh_calls ::
    "(string \<Rightarrow> string) \<Rightarrow> (int \<times> int \<times> json option) list \<Rightarrow> manager
       \<Rightarrow> (refresh_error + bool) list \<times> manager \<times> effect list" where
  "refresh_calls sha256 [] m = ([], m, [])"
| "refresh_calls sha256 ((now1, now2, file) # calls) m =
     (case onUnauthorized sha256 now1 now2 file m of
        (r, m1, fx) \<Rightarrow>
          (case refresh_calls sha256 calls m1 of
             (rs, m2, fxs) \<Rightarrow> (r # rs, m2, fx @ fxs)))"

text \<open>A cookie file as the host-side login writes it, reduced to its headers.\<close>

definition cookie_file :: "string \<Rightarrow> json" where
  "cookie_file c = JObj [(''headers'', JObj [(''Cookie'', JStr c), (''Accept'', JStr ''application/json'')])]"

text \<open>A stand-in for the hash in examples; any function will do, as only equality of
  its results is used.\<close>

definition toy_hash :: "string \<Rightarrow> string" where
  "toy_hash c = rev c"

definition stale_manager :: manager where
  "stale_manager =
     \<lparr> lastAttempt = 0, lastHash = toy_hash ''sid=old'',
       headers = JObj [(''Cookie'', JStr ''sid=old''), (''Accept'', JStr ''application/json'')] \<rparr>"

text \<open>
  An attempt 70 seconds after the last one, then two calls 30 and 55 seconds after it,
  each finding new cookies in the file.
\<close>

definition three_refreshes :: "(int \<times> int \<times> json option) list" where
  "three_refreshes =
     [(70000, 70001, Some (cookie_file ''sid=new'')),
      (100000, 100001, Some (cookie_file ''sid=newer'')),
      (125000, 125001, Some (cookie_file ''sid=newest''))]"

section \<open>Auth strategy testing\<close>

text \<open>
  Header objects are lists of properties in insertion order. Spreading an object into
  another sets its properties one by one: a key that is there keeps its place and
  takes the new value, a new key goes to the end.
\<close>

type_synonym header_obj = "(string \<times> string) list"

definition spread :: "header_obj \<Rightarrow> header_obj \<Rightarrow> header_obj" where
  "spread base ext = fold (\<lambda>kv obj. AList.update (fst kv) (snd kv) obj) ext base"

text \<open>\<^verbatim>\<open>resp.status < 400 || resp.status === 404\<close>\<close>

definition reachable :: "int \<Rightarrow> bool" where
  "reachable status = (status < 400 \<or> status = 404)"

text \<open>
  \<^verbatim>\<open>
  successPaths = [...apiPaths.entries()].filter(([p, s]) => s >= 200 && s < 400)
  testUrl = successPaths.length > 0 ? targetUrl.origin + successPaths[0][0] : targetUrl
  \<close>
\<close>

definition pick_test_url :: "string \<Rightarrow> string \<Rightarrow> (string \<times> int) list \<Rightarrow> string" where
  "pick_test_url origin targetUrl apiPaths =
     (case filter (\<lambda>ps. 200 \<le> snd ps \<and> snd ps < 400) apiPaths of
        [] \<Rightarrow> targetUrl
      | ps # _ \<Rightarrow> origin @ fst ps)"

record strategy_choice =
  finalHeaders :: header_obj
  authStrategy :: string

text \<open>
  \<^verbatim>\<open>
  cookieHeaders = { Cookie: cookieHeader, ...csrfHeaders, ...originHeaders, Accept: 'application/json' }
  resp1 = fetch(testUrl, { headers: cookieHeaders })
  if (resp1.status < 400 || resp1.status === 404) {
    finalHeaders = cookieHeaders
    authStrategy = 'cookie' + (Object.keys(csrfHeaders).length ? '+csrf' : '-only')
  }
  else if (capturedBearer) {
    withBearer = { ...cookieHeaders, Authorization: capturedBearer }
    resp2 = fetch(testUrl, { headers: withBearer })
    if (resp2.status < 400 || resp2.status === 404) {
      finalHeaders = withBearer; authStrategy = 'cookie+bearer'
    } else {
      bearerOnly = { Authorization: capturedBearer, Accept: 'application/json' }
      resp3 = fetch(testUrl, { headers: bearerOnly })
      if (resp3.status < 400 || resp3.status === 404) {
        finalHeaders = bearerOnly; authStrategy = 'bearer-only'
      } else {
        finalHeaders = cookieHeaders; authStrategy = 'cookie-only-unverified'
      }
    }
  } else {
    finalHeaders = cookieHeaders; authStrategy = 'cookie-only'
  }
  \<close>
  \<open>fetch\<close> gives the status that the server answers to a request for the test URL with
  the given headers. A bearer that was never captured is \<open>None\<close>; \<open>None\<close> and the empty
  string are the falsy values of \<^verbatim>\<open>capturedBearer\<close>.
\<close>

definition cookie_candidate :: "string \<Rightarrow> header_obj \<Rightarrow> header_obj \<Rightarrow> header_obj" where
  "cookie_candidate cookieHeader csrfHeaders originHeaders =
     spread (spread (spread [(''Cookie'', cookieHeader)] csrfHeaders) originHeaders)
            [(''Accept'', ''application/json'')]"

definition test_auth_strategies ::
    "(string \<Rightarrow> header_obj \<Rightarrow> int) \<Rightarrow> string \<Rightarrow> string \<Rightarrow> header_obj \<Rightarrow> header_obj
       \<Rightarrow> string option \<Rightarrow> strategy_choice" where
  "test_auth_strategies fetch testUrl cookieHeader csrfHeaders originHeaders capturedBearer =
     (let cookieHeaders = cookie_candidate cookieHeader csrfHeaders originHeaders in
      if reachable (fetch testUrl cookieHeaders)
      then \<lparr> finalHeaders = cookieHeaders,
             authStrategy = ''cookie'' @ (if csrfHeaders \<noteq> [] then ''+csrf'' else ''-only'') \<rparr>
      else
        (case (if capturedBearer = Some [] then None else capturedBearer) of
           Some bearer \<Rightarrow>
             (let withBearer = spread cookieHeaders [(''Authorization'', bearer)] in
              if reachable (fetch testUrl withBearer)
              then \<lparr> finalHeaders = withBearer, authStrategy = ''cookie+bearer'' \<rparr>
              else
                (let bearerOnly = [(''Authorization'', bearer), (''Accept'', ''application/json'')] in
                 if reachable (fetch testUrl bearerOnly)
                 then \<lparr> finalHeaders = bearerOnly, authStrategy = ''bearer-only'' \<rparr>
                 else \<lparr> finalHeaders = cookieHeaders, authStrategy = ''cookie-only-unverified'' \<rparr>))
         | None \<Rightarrow> \<lparr> finalHeaders = cookieHeaders, authStrategy = ''cookie-only'' \<rparr>))"

text \<open>A server that answers 401 to every probe.\<close>

definition always_401 :: "string \<Rightarrow> header_obj \<Rightarrow> int" where
  "always_401 url hs = 401"

section \<open>The host-side login script\<close>

subsection \<open>The browser as the script sees it\<close>

text \<open>\<^verbatim>\<open>String.prototype.includes\<close>\<close>

fun str_includes :: "string \<Rightarrow> string \<Rightarrow> bool" where
  "str_includes [] sub = (sub = [])"
| "str_includes (c # cs) sub = (startsWith (c # cs) sub \<or> str_includes cs sub)"

datatype field_kind = Email | Password | Totp

record cookie =
  name :: string
  val :: string
  domain :: string

text \<open>
  The page and the browser context are outside the script. \<open>'p\<close> is the state of the
  browser; the record gives what each call of the script reads from a state and how
  each action changes it. An action that the script does not guard with \<^verbatim>\<open>catch\<close> may
  throw: \<open>None\<close>.
  \<^item> \<open>goto\<close>: \<^verbatim>\<open>page.goto(INSTANCE_URL, ...)\<close> and the wait behind it.
  \<^item> \<open>url\<close>: \<^verbatim>\<open>page.url()\<close>.
  \<^item> \<open>login_inputs\<close>: the length of \<^verbatim>\<open>page.$$('input[type="email"]:visible, ...')\<close>.
  \<^item> \<open>empty_visible\<close>: for a selector, whether \<^verbatim>\<open>page.$(sel)\<close> finds an element that
    is visible and whose \<^verbatim>\<open>inputValue()\<close> is empty (a failing query counts as no
    element, as not visible, as filled).
  \<^item> \<open>fill_submit\<close>: \<^verbatim>\<open>el.fill(...)\<close>, the click on the submit button and the two waits.
  \<^item> \<open>visible_button\<close>: for a selector, whether the element exists and is visible.
  \<^item> \<open>click\<close>: \<^verbatim>\<open>btn.click().catch(() => {})\<close> and the wait of three seconds.
  \<^item> \<open>idle\<close>: \<^verbatim>\<open>page.waitForTimeout(5000)\<close>.
  \<^item> \<open>csrf_meta\<close>: the content of the CSRF meta tag, empty when there is none or the
    evaluation fails.
  \<^item> \<open>cookies\<close>: \<^verbatim>\<open>context.cookies()\<close>.
\<close>

record 'p browser =
  goto :: "'p \<Rightarrow> 'p option"
  url :: "'p \<Rightarrow> string"
  login_inputs :: "'p \<Rightarrow> nat"
  empty_visible :: "'p \<Rightarrow> string \<Rightarrow> bool"
  fill_submit :: "field_kind \<Rightarrow> string \<Rightarrow> 'p \<Rightarrow> 'p option"
  visible_button :: "'p \<Rightarrow> string \<Rightarrow> bool"
  click :: "string \<Rightarrow> 'p \<Rightarrow> 'p"
  idle :: "'p \<Rightarrow> 'p"
  csrf_meta :: "'p \<Rightarrow> string"
  cookies :: "'p \<Rightarrow> cookie list"

definition EMAIL_SELECTORS :: "string list" where
  "EMAIL_SELECTORS =
     [''input[name=\"loginfmt\"]'', ''input[type=\"email\"]'', ''input[name=\"email\"]'',
      ''input[name=\"username\"]'', ''input[name=\"user\"]'']"

definition PW_SELECTORS :: "string list" where
  "PW_SELECTORS =
     [''input[name=\"passwd\"]'', ''input[type=\"password\"]'', ''input[name=\"password\"]'']"

definition TOTP_SELECTORS :: "string list" where
  "TOTP_SELECTORS =
     [''input[name=\"otc\"]'', ''input#idTxtBx_SAOTCC_OTC'', ''input[placeholder*=\"code\"]'']"

definition CONSENT_SELECTORS :: "string list" where
  "CONSENT_SELECTORS =
     [''#idSIButton9'', ''#idBtn_Back'', ''#acceptButton'',
      ''button:has-text(\"Yes\")'', ''button:has-text(\"Accept\")'',
      ''button:has-text(\"Continue\")'', ''button:has-text(\"Stay signed in\")'',
      ''button:has-text(\"Approve\")'']"

subsection \<open>The login loop\<close>

text \<open>
  \<^verbatim>\<open>
  const onTarget = url.includes(TARGET_HOST) && !url.includes("login.microsoftonline.com");
  const hasLoginForm = await page.$$(...);
  if (onTarget && hasLoginForm.length === 0) { ...; break; }
  \<close>
\<close>

definition landed :: "'p browser \<Rightarrow> string \<Rightarrow> 'p \<Rightarrow> bool" where
  "landed b host p =
     (str_includes (url b p) host \<and> \<not> str_includes (url b p) ''login.microsoftonline.com''
      \<and> login_inputs b p = 0)"

datatype login_error = ActionFailed

text \<open>
  \<^verbatim>\<open>for (let step = 0; step < 25; step++) { ... }\<close> with the number of steps that are
  left. Each step tests for the landing, then tries, in this order and acting on the
  first that applies: an empty visible email field, an empty visible password field,
  an empty visible code field (only with a TOTP secret), a visible consent button;
  with none of them it waits. The result is the page at the end together with whether
  the loop ended by \<^verbatim>\<open>break\<close> (landed) rather than by running out of steps, or the
  exception of an unguarded action.
\<close>

fun login_loop ::
    "'p browser \<Rightarrow> string \<Rightarrow> bool \<Rightarrow> nat \<Rightarrow> 'p \<Rightarrow> login_error + ('p \<times> bool)" where
  "login_loop b host totp 0 p = Inr (p, False)"
| "login_loop b host totp (Suc n) p =
     (if landed b host p then Inr (p, True)
      else
        (case find (empty_visible b p) EMAIL_SELECTORS of
           Some sel \<Rightarrow>
             (case fill_submit b Email sel p of
                None \<Rightarrow> Inl ActionFailed
              | Some p' \<Rightarrow> login_loop b host totp n p')
         | None \<Rightarrow>
        (case find (empty_visible b p) PW_SELECTORS of
           Some sel \<Rightarrow>
             (case fill_submit b Password sel p of
                None \<Rightarrow> Inl ActionFailed
              | Some p' \<Rightarrow> login_loop b host totp n p')
         | None \<Rightarrow>
        (case (if totp then find (empty_visible b p) TOTP_SELECTORS else None) of
           Some sel \<Rightarrow>
             (case fill_submit b Totp sel p of
                None \<Rightarrow> Inl ActionFailed
              | Some p' \<Rightarrow> login_loop b host totp n p')
         | None \<Rightarrow>
        (case find (visible_button b p) CONSENT_SELECTORS of
           Some sel \<Rightarrow> login_loop b host totp n (click b sel p)
         | None \<Rightarrow> login_loop b host totp n (idle b p))))))"

subsection \<open>What the script leaves behind\<close>

text \<open>
  The session artifact:
  \<^verbatim>\<open>{ headers, capturedAt: Date.now(), instanceUrl: INSTANCE_URL,
     cookieCount: relevantCookies.length, hasCsrfToken: !!csrfToken }\<close>
\<close>

record session =
  headers :: header_obj
  capturedAt :: int
  instanceUrl :: string
  cookieCount :: nat
  hasCsrfToken :: bool

text \<open>
  The files a run can leave: \<^verbatim>\<open>cookies.json\<close> in the configuration directory, its copy
  \<^verbatim>\<open>.cookie-cache.json\<close> in the working directory, and a screenshot.
\<close>

datatype artifact = CookieFile session | CookieCache session | Screenshot

record outcome =
  exit_code :: nat
  artifacts :: "artifact list"

definition aborted :: outcome where
  "aborted = \<lparr> exit_code = 1, artifacts = [] \<rparr>"

text \<open>\<^verbatim>\<open>relevantCookies.map((c) => `${c.name}=${c.value}`).join("; ")\<close>\<close>

fun join :: "string \<Rightarrow> string list \<Rightarrow> string" where
  "join sep [] = []"
| "join sep [x] = x"
| "join sep (x # y # ys) = x @ sep @ join sep (y # ys)"

text \<open>
  \<^verbatim>\<open>
  const relevantCookies = allCookies.filter(
    (c) => c.domain.includes(TARGET_HOST) || c.domain.includes("microsoftonline.com"));
  const cookieHeader = relevantCookies.map(...).join("; ");
  const headers = { Cookie: cookieHeader, Accept: "application/json",
                    ...(csrfToken ? { [CSRF_HEADER_NAME]: csrfToken } : {}) };
  \<close>
  with \<^verbatim>\<open>CSRF_HEADER_NAME = "X-CSRF-Token"\<close>.
\<close>

definition capture_session :: "'p browser \<Rightarrow> string \<Rightarrow> string \<Rightarrow> int \<Rightarrow> 'p \<Rightarrow> session" where
  "capture_session b host instance now p =
     (let csrfToken = csrf_meta b p;
          relevantCookies =
            filter (\<lambda>c. str_includes (domain c) host \<or> str_includes (domain c) ''microsoftonline.com'')
                   (cookies b p);
          cookieHeader = join ''; '' (map (\<lambda>c. name c @ ''='' @ val c) relevantCookies)
      in \<lparr> session.headers =
               spread [(''Cookie'', cookieHeader), (''Accept'', ''application/json'')]
                      (if csrfToken \<noteq> [] then [(''X-CSRF-Token'', csrfToken)] else []),
             capturedAt = now,
             instanceUrl = instance,
             cookieCount = length relevantCookies,
             hasCsrfToken = (csrfToken \<noteq> []) \<rparr>)"

text \<open>
  \<^verbatim>\<open>main\<close> with the configuration the file ships (\<^verbatim>\<open>SESSION_INFO_ENDPOINT\<close>,
  \<^verbatim>\<open>VERIFY_ENDPOINT\<close> and \<^verbatim>\<open>CSRF_GLOBAL_VAR\<close> empty, so these steps are skipped), from the
  point where the browser is launched. \<open>creds\<close> says whether an email and a password
  were found; \<open>config_writable\<close> and \<open>cwd_writable\<close> say whether the two
  \<^verbatim>\<open>writeFileSync\<close> calls succeed. An exception anywhere reaches
  \<^verbatim>\<open>main().catch(...)\<close>, which exits with code 1; only the second write is guarded.
  \<^verbatim>\<open>
    await page.goto(INSTANCE_URL, ...);
    for (let step = 0; step < 25; step++) { ... }
    if (!page.url().includes(TARGET_HOST)) { await page.goto(INSTANCE_URL, ...); ... }
    ...
    writeFileSync(COOKIE_FILE, JSON.stringify(result, null, 2));
    try { writeFileSync(join(process.cwd(), ".cookie-cache.json"), ...); } catch { }
  \<close>
\<close>

definition host_auth_main ::
    "'p browser \<Rightarrow> string \<Rightarrow> string \<Rightarrow> bool \<Rightarrow> bool \<Rightarrow> bool \<Rightarrow> bool \<Rightarrow> int \<Rightarrow> 'p \<Rightarrow> outcome" where
  "host_auth_main b host instance creds totp config_writable cwd_writable now p0 =
     (if \<not> creds then aborted
      else
        case goto b p0 of
          None \<Rightarrow> aborted
        | Some p1 \<Rightarrow>
            (case login_loop b host totp 25 p1 of
               Inl e \<Rightarrow> aborted
             | Inr pl \<Rightarrow>
                 (case (if \<not> str_includes (url b (fst pl)) host then goto b (fst pl) else Some (fst pl)) of
                    None \<Rightarrow> aborted
                  | Some p2 \<Rightarrow>
                      (let result = capture_session b host instance now p2 in
                       if \<not> config_writable then aborted
                       else \<lparr> exit_code = 0,
                              artifacts = CookieFile result
                                # (if cwd_writable then [CookieCache result] else []) \<rparr>))))"

text \<open>
  A browser that never leaves the identity provider's page and shows nothing the loop
  can act on; its only state is the page it is stuck on.
\<close>

definition stuck_browser :: "unit browser" where
  "stuck_browser =
     \<lparr> goto = (\<lambda>p. Some p),
       url = (\<lambda>p. ''https://login.microsoftonline.com/common/oauth2/authorize''),
       login_inputs = (\<lambda>p. 0),
       empty_visible = (\<lambda>p sel. False),
       fill_submit = (\<lambda>k sel p. Some p),
       visible_button = (\<lambda>p sel. False),
       click = (\<lambda>sel p. p),
       idle = (\<lambda>p. p),
       csrf_meta = (\<lambda>p. ''''),
       cookies = (\<lambda>p. [\<lparr> name = ''buid'', val = ''x1'', domain = ''login.microsoftonline.com'' \<rparr>]) \<rparr>"

section \<open>Shape inference on arrays\<close>

text \<open>
  Claim C10. The shape of a JSON array depends only on its first element: a non-empty
  array yields the one-element list holding the shape of its first element, whatever
  the later elements are, and the empty array yields the list holding \<^verbatim>\<open>'unknown'\<close>.
\<close>

theorem inferShape_array_first_only:
  "inferShape (JArr (x # xs)) = SList [inferShape x]
   \<and> inferShape (JArr (x # xs)) = inferShape (JArr (x # ys))
   \<and> inferShape (JArr (x # xs)) = inferShape (JArr [x])
   \<and> inferShape (JArr []) = SList [Marker ''unknown'']"
  by simp

section \<open>Path templating\<close>

lemma not_hex_slash: "\<not> is_hex (CHR ''/'')"
  by (simp add: is_hex_def)

lemma not_digit_slash: "\<not> is_digit (CHR ''/'')"
  by (simp add: is_digit_def)

lemma digit_is_hex: "is_digit c \<Longrightarrow> is_hex c"
  by (auto simp: is_digit_def is_hex_def)

lemma takeWhile_stop: "\<not> P y \<Longrightarrow> takeWhile P (xs @ y # ys) = takeWhile P xs"
  by (induction xs) auto

lemma dropWhile_stop: "\<not> P y \<Longrightarrow> dropWhile P (xs @ y # ys) = dropWhile P xs @ y # ys"
  by (induction xs) auto

lemma lookahead_append:
  "(case xs @ CHR ''/'' # rest of [] \<Rightarrow> True | d # _ \<Rightarrow> d = CHR ''/'')
     = (case xs of [] \<Rightarrow> True | d # _ \<Rightarrow> d = CHR ''/'')"
  by (cases xs) simp_all

lemma parameterizePath_at_slash:
  "parameterizePath (pre @ CHR ''/'' # rest)
     = parameterizePath pre @ parameterizePath (CHR ''/'' # rest)"
proof (induction pre rule: parameterizePath.induct)
  case 1
  show ?case by simp
next
  case (2 c cs)
  have th: "takeWhile is_hex (cs @ CHR ''/'' # rest) = takeWhile is_hex cs"
    by (simp add: takeWhile_stop not_hex_slash)
  have dh: "dropWhile is_hex (cs @ CHR ''/'' # rest) = dropWhile is_hex cs @ CHR ''/'' # rest"
    by (simp add: dropWhile_stop not_hex_slash)
  have td: "takeWhile is_digit (cs @ CHR ''/'' # rest) = takeWhile is_digit cs"
    by (simp add: takeWhile_stop not_digit_slash)
  have dd: "dropWhile is_digit (cs @ CHR ''/'' # rest) = dropWhile is_digit cs @ CHR ''/'' # rest"
    by (simp add: dropWhile_stop not_digit_slash)
  have look: "(case dropWhile is_digit cs @ CHR ''/'' # rest of [] \<Rightarrow> True | d # _ \<Rightarrow> d = CHR ''/'')
      = (case dropWhile is_digit cs of [] \<Rightarrow> True | d # _ \<Rightarrow> d = CHR ''/'')"
    by (rule lookahead_append)
  have L: "parameterizePath ((c # cs) @ CHR ''/'' # rest) =
     (if c = CHR ''/'' \<and> 8 \<le> length (takeWhile is_hex cs)
      then ''/{id}'' @ parameterizePath (dropWhile is_hex cs @ CHR ''/'' # rest)
      else if c = CHR ''/'' \<and> takeWhile is_digit cs \<noteq> []
              \<and> (case dropWhile is_digit cs of [] \<Rightarrow> True | d # _ \<Rightarrow> d = CHR ''/'')
      then ''/{id}'' @ parameterizePath (dropWhile is_digit cs @ CHR ''/'' # rest)
      else c # parameterizePath (cs @ CHR ''/'' # rest))"
    using parameterizePath.simps(2) [of c "cs @ CHR ''/'' # rest"]
    by (simp only: append_Cons th dh td dd look)
  have R: "parameterizePath (c # cs) =
     (if c = CHR ''/'' \<and> 8 \<le> length (takeWhile is_hex cs)
      then ''/{id}'' @ parameterizePath (dropWhile is_hex cs)
      else if c = CHR ''/'' \<and> takeWhile is_digit cs \<noteq> []
              \<and> (case dropWhile is_digit cs of [] \<Rightarrow> True | d # _ \<Rightarrow> d = CHR ''/'')
      then ''/{id}'' @ parameterizePath (dropWhile is_digit cs)
      else c # parameterizePath cs)"
    by (rule parameterizePath.simps(2))
  show ?case
  proof (cases "c = CHR ''/'' \<and> 8 \<le> length (takeWhile is_hex cs)")
    case True
    show ?thesis
      unfolding L R using True "2.IH"(1) by (simp del: parameterizePath.simps)
  next
    case nohex: False
    show ?thesis
    proof (cases "c = CHR ''/'' \<and> takeWhile is_digit cs \<noteq> []
              \<and> (case dropWhile is_digit cs of [] \<Rightarrow> True | d # _ \<Rightarrow> d = CHR ''/'')")
      case True
      show ?thesis
        unfolding L R using True nohex "2.IH"(2) by (simp del: parameterizePath.simps)
    next
      case False
      show ?thesis
        unfolding L R using False nohex "2.IH"(3) by (auto simp del: parameterizePath.simps)
    qed
  qed
qed

lemma takeWhile_all_boundary:
  "list_all P s \<Longrightarrow> \<not> P (CHR ''/'') \<Longrightarrow> at_boundary rest \<Longrightarrow> takeWhile P (s @ rest) = s"
  by (cases rest) (auto simp: at_boundary_def list_all_iff takeWhile_stop)

lemma dropWhile_all_boundary:
  "list_all P s \<Longrightarrow> \<not> P (CHR ''/'') \<Longrightarrow> at_boundary rest \<Longrightarrow> dropWhile P (s @ rest) = rest"
  by (cases rest) (auto simp: at_boundary_def list_all_iff dropWhile_append)

lemma parameterizePath_id_segment:
  assumes "id_segment s" and "at_boundary rest"
  shows "parameterizePath (CHR ''/'' # s @ rest) = ''/{id}'' @ parameterizePath rest"
proof -
  from assms(1) have ne: "s \<noteq> []" by (simp add: id_segment_def)
  from assms(1) have hex: "list_all is_hex s"
    by (auto simp: id_segment_def list_all_iff digit_is_hex)
  have th: "takeWhile is_hex (s @ rest) = s"
    by (rule takeWhile_all_boundary [OF hex not_hex_slash assms(2)])
  have dh: "dropWhile is_hex (s @ rest) = rest"
    by (rule dropWhile_all_boundary [OF hex not_hex_slash assms(2)])
  show ?thesis
  proof (cases "8 \<le> length s")
    case True
    then show ?thesis by (simp add: th dh)
  next
    case False
    with assms(1) have dig: "list_all is_digit s" by (simp add: id_segment_def)
    have td: "takeWhile is_digit (s @ rest) = s"
      by (rule takeWhile_all_boundary [OF dig not_digit_slash assms(2)])
    have dd: "dropWhile is_digit (s @ rest) = rest"
      by (rule dropWhile_all_boundary [OF dig not_digit_slash assms(2)])
    from False ne assms(2) show ?thesis
      by (simp add: th dh td dd at_boundary_def)
  qed
qed

text \<open>
  Claim C8 (as amended). Two paths that differ only in one segment, where each of the
  two segments is an identifier segment (decimal digits only, or at least eight
  hexadecimal digits only, in either case), have the same template: the segment
  becomes \<^verbatim>\<open>{id}\<close> and the text before and after it is templated on its own.
\<close>

theorem path_template_collapses_id_segments:
  assumes "id_segment s1" and "id_segment s2" and "at_boundary rest"
  shows "parameterizePath (pre @ CHR ''/'' # s1 @ rest) = parameterizePath (pre @ CHR ''/'' # s2 @ rest)
       \<and> parameterizePath (pre @ CHR ''/'' # s1 @ rest)
           = parameterizePath pre @ ''/{id}'' @ parameterizePath rest"
  using assms by (simp add: parameterizePath_at_slash parameterizePath_id_segment del: parameterizePath.simps)

theorem path_template_collapses_id_segments_witness:
  "id_segment ''5f3a2b91'' \<and> id_segment ''42'' \<and> at_boundary []
   \<and> parameterizePath (''/api/users'' @ CHR ''/'' # ''5f3a2b91'' @ [])
       = parameterizePath (''/api/users'' @ CHR ''/'' # ''42'' @ [])
   \<and> parameterizePath ''/api/users/5f3a2b91'' = ''/api/users/{id}''
   \<and> parameterizePath ''/api/users/42'' = ''/api/users/{id}''"
proof -
  have a: "id_segment ''5f3a2b91''" by (simp add: id_segment_def is_hex_def is_digit_def)
  have b: "id_segment ''42''" by (simp add: id_segment_def is_hex_def is_digit_def)
  have c: "at_boundary []" by (simp add: at_boundary_def)
  from path_template_collapses_id_segments [OF a b c, of "''/api/users''"] a b c
  show ?thesis by (simp add: is_hex_def is_digit_def)
qed

text \<open>
  The claim as stated also covers long alphanumeric tokens. A token with a letter
  beyond \<^verbatim>\<open>f\<close> among its first eight characters is left as it is, so its
  template differs from that of the numeric path.
\<close>

theorem alphanumeric_token_counterexample:
  "parameterizePath ''/api/users/q7w8e9r0t1y2'' = ''/api/users/q7w8e9r0t1y2''
   \<and> parameterizePath ''/api/users/42'' = ''/api/users/{id}''
   \<and> parameterizePath ''/api/users/q7w8e9r0t1y2'' \<noteq> parameterizePath ''/api/users/42''"
  by (simp add: is_hex_def is_digit_def)

section \<open>Endpoint synthesis\<close>

subsection \<open>The catalogs of the example sessions\<close>

lemmas toolname_defs = generateToolName_def startsWith_def endsWith_def is_boilerplate_def
  toLowerCase_def strip_final_s_def is_digit_def Let_def

lemmas synth_defs = buildEndpointMap_def List.map_filter_simps synthesize_def successful_def
  get_call_def uniq_def isListBody_def results_field_def is_digit_def is_hex_def Let_def

lemma toolName_list_items: "generateToolName ''GET'' ''/api/v1/items'' = ''list_items''"
  by (simp add: toolname_defs)

lemma toolName_get_item: "generateToolName ''GET'' ''/api/v1/items/{id}'' = ''get_item''"
  by (simp add: toolname_defs)

lemma toolName_create_items: "generateToolName ''POST'' ''/api/v1/items'' = ''create_items''"
  by (simp add: toolname_defs)

lemma toolName_get_item_short: "generateToolName ''GET'' ''/items/{id}'' = ''get_item''"
  by (simp add: toolname_defs)

lemma toolName_list_search: "generateToolName ''GET'' ''/api/search'' = ''list_search''"
  by (simp add: toolname_defs)

lemmas toolName_examples = toolName_list_items toolName_get_item toolName_create_items
  toolName_get_item_short toolName_list_search


lemma scenario2_catalog:
  "buildEndpointMap (scenario2 body) =
     [\<lparr> DiscoveredAPI.http_method = ''POST'', path = ''/api/v1/items'',
         pathTemplate = ''/api/v1/items'', queryParams = [],
         requestBodyShape = Some (SObj [(''name'', Marker ''string'')]),
         responseBodyShape = (if truthy body then map_option inferShape body else None),
         responseStatus = Some 201, isListEndpoint = isListBody body, isMutation = True,
         sampleCount = 1, toolName = ''create_items'' \<rparr>]"
  by (simp add: scenario2_def synth_defs toolName_examples)

lemma two_ids_catalog:
  "buildEndpointMap two_ids_store =
     [\<lparr> DiscoveredAPI.http_method = ''GET'', path = ''/items/42'',
         pathTemplate = ''/items/{id}'', queryParams = [], requestBodyShape = None,
         responseBodyShape = None, responseStatus = Some 200, isListEndpoint = False,
         isMutation = False, sampleCount = 1, toolName = ''get_item'' \<rparr>,
      \<lparr> DiscoveredAPI.http_method = ''GET'', path = ''/items/5f3a2b91'',
         pathTemplate = ''/items/{id}'', queryParams = [], requestBodyShape = None,
         responseBodyShape = None, responseStatus = Some 200, isListEndpoint = False,
         isMutation = False, sampleCount = 1, toolName = ''get_item'' \<rparr>]"
  by (simp add: two_ids_store_def synth_defs toolName_examples)

lemma failed_then_ok_catalog:
  "buildEndpointMap failed_then_ok_store =
     [\<lparr> DiscoveredAPI.http_method = ''GET'', path = ''/api/search'',
         pathTemplate = ''/api/search'', queryParams = [''debug'', ''page''],
         requestBodyShape = None, responseBodyShape = None, responseStatus = Some 200,
         isListEndpoint = False, isMutation = False, sampleCount = 1,
         toolName = ''list_search'' \<rparr>]"
  by (simp add: failed_then_ok_store_def failed_then_ok_def synth_defs toolName_examples)

lemma set_uniq: "set (uniq xs) = set xs"
  by (simp add: uniq_def)

lemma distinct_uniq: "distinct (uniq xs)"
  by (simp add: uniq_def)

lemma synthesize_queryParams:
  "synthesize (k, es) = Some d \<Longrightarrow>
     DiscoveredAPI.queryParams d = uniq (concat (map CapturedEndpoint.queryParams es))"
  by (auto simp: synthesize_def Let_def split: list.splits)

lemma synthesize_sample:
  assumes "synthesize (k, es) = Some d"
  obtains sample others where "filter successful es = sample # others"
    and "DiscoveredAPI.http_method d = CapturedEndpoint.http_method sample"
    and "DiscoveredAPI.path d = CapturedEndpoint.path sample"
    and "pathTemplate d = parameterizePath (CapturedEndpoint.path sample)"
    and "sampleCount d = length (filter successful es)"
  using assms by (auto simp: synthesize_def Let_def split: list.splits)

lemma synthesize_isListEndpoint:
  assumes "synthesize (k, es) = Some d"
  shows "\<exists>sample others. filter successful es = sample # others
           \<and> isListEndpoint d = isListBody (responseBody sample)"
  using assms by (auto simp: synthesize_def Let_def split: list.splits)

lemma buildEndpointMap_origin:
  "d \<in> set (buildEndpointMap captured) \<Longrightarrow> \<exists>kv \<in> set captured. synthesize kv = Some d"
  by (auto simp: buildEndpointMap_def List.map_filter_def)

lemma synthesize_key:
  assumes "filed_under_own_key (k, es)" and "synthesize (k, es) = Some d"
  shows "descriptorKey d = k"
proof -
  from assms(2) obtain sample others where f: "filter successful es = sample # others"
    and m: "DiscoveredAPI.http_method d = CapturedEndpoint.http_method sample"
    and p: "DiscoveredAPI.path d = CapturedEndpoint.path sample"
    by (rule synthesize_sample)
  from f have "sample \<in> set (filter successful es)" by simp
  then have "sample \<in> set es" by simp
  with assms(1) have "k = routeKey (CapturedEndpoint.http_method sample) (CapturedEndpoint.path sample)"
    by (simp add: filed_under_own_key_def list_all_iff)
  with m p show ?thesis by (simp add: descriptorKey_def)
qed

lemma descriptorKeys_of_catalog:
  "list_all filed_under_own_key captured \<Longrightarrow>
     map descriptorKey (buildEndpointMap captured)
       = map fst (filter (\<lambda>kv. synthesize kv \<noteq> None) captured)"
proof (induction captured)
  case Nil
  show ?case by (simp add: buildEndpointMap_def)
next
  case (Cons kv captured)
  obtain k es where kv: "kv = (k, es)" by (cases kv)
  from Cons.prems have own: "filed_under_own_key (k, es)" and rest: "list_all filed_under_own_key captured"
    by (simp_all add: kv)
  from Cons.IH [OF rest] have ih: "map descriptorKey (List.map_filter synthesize captured)
       = map fst (filter (\<lambda>kv. synthesize kv \<noteq> None) captured)"
    by (simp add: buildEndpointMap_def)
  show ?case
  proof (cases "synthesize (k, es)")
    case None
    with ih show ?thesis by (simp add: buildEndpointMap_def kv)
  next
    case (Some d)
    with ih synthesize_key [OF own Some] show ?thesis by (simp add: buildEndpointMap_def kv)
  qed
qed

subsection \<open>Uniqueness of descriptors\<close>

text \<open>
  Claim C1 (as amended). The synthesizer emits one descriptor per entry of the store
  that has a successful sample, so on a store as the request handler builds it (each
  key once, each entry filed under its own method and raw path) no two descriptors of
  the catalog have the same RouteKey, that is the same method and the same raw path.
\<close>

theorem catalog_unique_per_route_key:
  assumes "wf_store captured"
  shows "distinct (map descriptorKey (buildEndpointMap captured))"
proof -
  from assms have d: "distinct (map fst captured)" and own: "list_all filed_under_own_key captured"
    by (simp_all add: wf_store_def)
  from d have "distinct (map fst (filter (\<lambda>kv. synthesize kv \<noteq> None) captured))"
    by (rule distinct_map_filter)
  with descriptorKeys_of_catalog [OF own] show ?thesis by simp
qed

theorem catalog_unique_per_route_key_witness:
  "wf_store two_ids_store
   \<and> distinct (map descriptorKey (buildEndpointMap two_ids_store))
   \<and> map descriptorKey (buildEndpointMap two_ids_store) = [''GET /items/42'', ''GET /items/5f3a2b91'']"
proof -
  have w: "wf_store two_ids_store"
    by (simp add: wf_store_def two_ids_store_def filed_under_own_key_def routeKey_def get_call_def)
  have "map descriptorKey (buildEndpointMap two_ids_store) = [''GET /items/42'', ''GET /items/5f3a2b91'']"
    by (simp add: two_ids_catalog descriptorKey_def routeKey_def)
  with w catalog_unique_per_route_key [OF w] show ?thesis by simp
qed

text \<open>
  Uniqueness on the pair of method and path template, which is what the claim states,
  fails: \<^verbatim>\<open>GET /items/42\<close> and \<^verbatim>\<open>GET /items/5f3a2b91\<close> are two keys of the store, and each
  yields its own descriptor with the template \<^verbatim>\<open>/items/{id}\<close>.
\<close>

theorem same_template_twice_counterexample:
  "map groupKey (buildEndpointMap two_ids_store) = [(''GET'', ''/items/{id}''), (''GET'', ''/items/{id}'')]
   \<and> \<not> distinct (map groupKey (buildEndpointMap two_ids_store))"
  by (simp add: two_ids_catalog groupKey_def)

subsection \<open>Query parameters\<close>

text \<open>
  Claim C7 (as amended). Every descriptor of the catalog comes from one entry of the
  store, and its \<^verbatim>\<open>queryParams\<close> lists, without repetition, exactly the query-parameter
  names of all the calls recorded under that key, whatever their response status.
\<close>

theorem queryParams_union_of_all_entries:
  assumes "d \<in> set (buildEndpointMap captured)"
  shows "\<exists>k es. (k, es) \<in> set captured \<and> synthesize (k, es) = Some d
           \<and> set (DiscoveredAPI.queryParams d) = (\<Union>e \<in> set es. set (CapturedEndpoint.queryParams e))
           \<and> distinct (DiscoveredAPI.queryParams d)"
proof -
  from buildEndpointMap_origin [OF assms] obtain k es
    where mem: "(k, es) \<in> set captured" and syn: "synthesize (k, es) = Some d"
    by (cases rule: bexE) auto
  from synthesize_queryParams [OF syn]
  have "set (DiscoveredAPI.queryParams d) = (\<Union>e \<in> set es. set (CapturedEndpoint.queryParams e))"
    and "distinct (DiscoveredAPI.queryParams d)"
    by (simp_all add: set_uniq distinct_uniq)
  with mem syn show ?thesis by blast
qed

theorem queryParams_union_of_all_entries_witness:
  "hd (buildEndpointMap failed_then_ok_store) \<in> set (buildEndpointMap failed_then_ok_store)
   \<and> (\<exists>k es. (k, es) \<in> set failed_then_ok_store
          \<and> synthesize (k, es) = Some (hd (buildEndpointMap failed_then_ok_store))
          \<and> set (DiscoveredAPI.queryParams (hd (buildEndpointMap failed_then_ok_store)))
               = (\<Union>e \<in> set es. set (CapturedEndpoint.queryParams e))
          \<and> distinct (DiscoveredAPI.queryParams (hd (buildEndpointMap failed_then_ok_store))))"
proof -
  have m: "hd (buildEndpointMap failed_then_ok_store) \<in> set (buildEndpointMap failed_then_ok_store)"
    by (simp add: failed_then_ok_catalog)
  from m queryParams_union_of_all_entries [OF m] show ?thesis by simp
qed

text \<open>
  The union over the successful samples only, which is what the claim states, is a
  different set as soon as a failed call carries a parameter of its own.
\<close>

theorem queryParams_successful_only_counterexample:
  "map DiscoveredAPI.queryParams (buildEndpointMap failed_then_ok_store) = [[''debug'', ''page'']]
   \<and> concat (map CapturedEndpoint.queryParams (filter successful failed_then_ok)) = [''page'']
   \<and> set (DiscoveredAPI.queryParams (hd (buildEndpointMap failed_then_ok_store)))
        \<noteq> set (concat (map CapturedEndpoint.queryParams (filter successful failed_then_ok)))"
  by (simp add: failed_then_ok_catalog failed_then_ok_def successful_def get_call_def)

subsection \<open>Scenario 1: a list route and a detail route\<close>



subsection \<open>Scenario 2: a creating route\<close>

text \<open>
  Claim C3. For \<^verbatim>\<open>POST /api/v1/items\<close> with request body \<^verbatim>\<open>{"name":"x"}\<close> and status 201 the
  descriptor is a mutation and its request shape is \<^verbatim>\<open>{name: "string"}\<close>, as claimed; its
  tool name is \<^verbatim>\<open>create_items\<close>, since the plural is only stripped when the template ends
  in \<^verbatim>\<open>/{id}\<close>, where the claim and the comment on \<^verbatim>\<open>toolName\<close> expect the singular.
\<close>

theorem scenario2_descriptor:
  "map isMutation (buildEndpointMap (scenario2 body)) = [True]
   \<and> map requestBodyShape (buildEndpointMap (scenario2 body)) = [Some (SObj [(''name'', Marker ''string'')])]
   \<and> map toolName (buildEndpointMap (scenario2 body)) = [''create_items'']
   \<and> map toolName (buildEndpointMap (scenario2 body)) \<noteq> [''create_item'']"
  by (simp add: scenario2_catalog)

subsection \<open>Stores built by the request handler\<close>

text \<open>Every store that the request handler builds from the empty \<^verbatim>\<open>Map\<close> is well formed.\<close>

lemma store_push_keys:
  "map (fst \<circ> (\<lambda>kv. if fst kv = key then (fst kv, snd kv @ [e]) else kv)) captured = map fst captured"
  by (induction captured) auto

lemma wf_store_empty: "wf_store []"
  by (simp add: wf_store_def)

lemma wf_store_push:
  assumes "wf_store captured"
  shows "wf_store (store_push e captured)"
proof (cases "routeKey (CapturedEndpoint.http_method e) (CapturedEndpoint.path e) \<in> set (map fst captured)")
  case True
  from assms have "list_all filed_under_own_key
      (map (\<lambda>kv. if fst kv = routeKey (CapturedEndpoint.http_method e) (CapturedEndpoint.path e)
                  then (fst kv, snd kv @ [e]) else kv) captured)"
    by (fastforce simp: wf_store_def list_all_iff filed_under_own_key_def)
  with assms True show ?thesis
    by (simp add: wf_store_def store_push_def store_push_keys del: set_map)
next
  case False
  with assms show ?thesis
    by (simp add: wf_store_def store_push_def filed_under_own_key_def)
qed

lemma wf_store_fold_push: "wf_store (fold store_push es [])"
proof -
  have "wf_store s \<Longrightarrow> wf_store (fold store_push es s)" for s
    by (induction es arbitrary: s) (simp_all add: wf_store_push)
  then show ?thesis by (simp add: wf_store_empty)
qed


section \<open>Refreshing the session\<close>

lemma onUnauthorized_cooldown:
  "now1 - lastAttempt m < 60000 \<Longrightarrow> onUnauthorized sha256 now1 now2 cfile m = (Inr False, m, [])"
  by (simp add: onUnauthorized_def)

lemma onUnauthorized_attempt:
  assumes "\<not> now1 - lastAttempt m < 60000"
    and "onUnauthorized sha256 now1 now2 cfile m = (r, m', fx)"
  shows "lastAttempt m' = now2 \<and> fx = [ReadCookieFile]"
  using assms
  by (auto simp: onUnauthorized_def Let_def split: option.splits sum.splits if_splits)

lemma stale_refresh_eval:
  "onUnauthorized toy_hash 120000 120001 (Some (cookie_file ''sid=old'')) stale_manager
     = (Inr False, stale_manager\<lparr>lastAttempt := 120001\<rparr>, [ReadCookieFile])"
  by (simp add: onUnauthorized_def fresh_cookie_def cookie_file_def stale_manager_def toy_hash_def)

text \<open>
  Claim C5. When the freshly read credentials have the fingerprint that is stored, the
  call returns false, never true, and leaves the held headers and the stored
  fingerprint as they were. Conversely the headers or the fingerprint change only in a
  call that read credentials with a different fingerprint, and that call returns true
  and holds exactly the fresh headers and their fingerprint afterwards.
\<close>

theorem unchanged_fingerprint_is_no_change:
  assumes "onUnauthorized sha256 now1 now2 cfile m = (r, m', fx)"
  shows "(\<forall>fresh hs c. cfile = Some fresh \<longrightarrow> fresh_cookie fresh = Inr (hs, c)
            \<longrightarrow> sha256 c = lastHash m
            \<longrightarrow> r = Inr False \<and> manager.headers m' = manager.headers m \<and> lastHash m' = lastHash m)
       \<and> (manager.headers m' \<noteq> manager.headers m \<or> lastHash m' \<noteq> lastHash m
            \<longrightarrow> (\<exists>fresh hs c. cfile = Some fresh \<and> fresh_cookie fresh = Inr (hs, c)
                   \<and> sha256 c \<noteq> lastHash m \<and> r = Inr True
                   \<and> manager.headers m' = hs \<and> lastHash m' = sha256 c))"
  using assms
  by (auto simp: onUnauthorized_def Let_def split: option.splits sum.splits if_splits)

theorem unchanged_fingerprint_is_no_change_witness:
  "onUnauthorized toy_hash 120000 120001 (Some (cookie_file ''sid=old'')) stale_manager
     = (Inr False, stale_manager\<lparr>lastAttempt := 120001\<rparr>, [ReadCookieFile])
   \<and> fresh_cookie (cookie_file ''sid=old'')
       = Inr (JObj [(''Cookie'', JStr ''sid=old''), (''Accept'', JStr ''application/json'')], ''sid=old'')
   \<and> toy_hash ''sid=old'' = lastHash stale_manager
   \<and> manager.headers (stale_manager\<lparr>lastAttempt := 120001\<rparr>) = manager.headers stale_manager
   \<and> lastHash (stale_manager\<lparr>lastAttempt := 120001\<rparr>) = lastHash stale_manager"
proof -
  have fc: "fresh_cookie (cookie_file ''sid=old'')
       = Inr (JObj [(''Cookie'', JStr ''sid=old''), (''Accept'', JStr ''application/json'')], ''sid=old'')"
    by (simp add: fresh_cookie_def cookie_file_def)
  have h: "toy_hash ''sid=old'' = lastHash stale_manager"
    by (simp add: stale_manager_def)
  from unchanged_fingerprint_is_no_change [OF stale_refresh_eval] fc h stale_refresh_eval
  show ?thesis by blast
qed

lemma onUnauthorized_no_login:
  "login_invocations (snd (snd (onUnauthorized sha256 now1 now2 cfile m))) = 0"
  by (simp add: onUnauthorized_def login_invocations_def Let_def
        split: option.splits sum.splits)

lemma login_invocations_append:
  "login_invocations (fx @ fxs) = login_invocations fx + login_invocations fxs"
  by (simp add: login_invocations_def)

lemma refresh_calls_no_login:
  "login_invocations (snd (snd (refresh_calls sha256 calls m))) = 0"
proof (induction calls arbitrary: m)
  case Nil
  show ?case by (simp add: login_invocations_def)
next
  case (Cons call calls)
  obtain now1 now2 cfile where call: "call = (now1, now2, cfile)" by (cases call)
  obtain r m1 fx where one: "onUnauthorized sha256 now1 now2 cfile m = (r, m1, fx)"
    by (cases "onUnauthorized sha256 now1 now2 cfile m")
  obtain rs m2 fxs where more: "refresh_calls sha256 calls m1 = (rs, m2, fxs)"
    by (cases "refresh_calls sha256 calls m1")
  from onUnauthorized_no_login [of sha256 now1 now2 cfile m] one
  have "login_invocations fx = 0" by simp
  moreover from Cons.IH [of m1] more have "login_invocations fxs = 0" by simp
  ultimately show ?case by (simp add: call one more login_invocations_append)
qed

text \<open>
  Claim C6 (as amended). A call made less than 60 seconds after the last recorded
  attempt returns false at once: the manager is unchanged, nothing is read and no login
  is started. Hence an attempt outside the cooldown followed by two calls within 60
  seconds of the time it recorded reads the cookie file exactly once in total; the two
  later calls return false and change nothing. No series of calls ever starts the
  login: the method only reads what a login run by someone else has written.
\<close>

theorem cooldown_bounds_credential_reads:
  "(now1 - lastAttempt m < 60000
      \<longrightarrow> onUnauthorized sha256 now1 now2 cfile m = (Inr False, m, []))
   \<and> (\<not> t0 - lastAttempt m < 60000 \<and> t1 - t0' < 60000 \<and> t2 - t0' < 60000
      \<longrightarrow> snd (snd (refresh_calls sha256 [(t0, t0', f0), (t1, t1', f1), (t2, t2', f2)] m))
            = [ReadCookieFile]
          \<and> drop 1 (fst (refresh_calls sha256 [(t0, t0', f0), (t1, t1', f1), (t2, t2', f2)] m))
            = [Inr False, Inr False]
          \<and> fst (snd (refresh_calls sha256 [(t0, t0', f0), (t1, t1', f1), (t2, t2', f2)] m))
            = fst (snd (onUnauthorized sha256 t0 t0' f0 m)))
   \<and> login_invocations (snd (snd (refresh_calls sha256 calls m'))) = 0"
proof (intro conjI impI)
  assume "now1 - lastAttempt m < 60000"
  then show "onUnauthorized sha256 now1 now2 cfile m = (Inr False, m, [])"
    by (rule onUnauthorized_cooldown)
next
  assume a: "\<not> t0 - lastAttempt m < 60000 \<and> t1 - t0' < 60000 \<and> t2 - t0' < 60000"
  obtain r m1 fx where first: "onUnauthorized sha256 t0 t0' f0 m = (r, m1, fx)"
    by (cases "onUnauthorized sha256 t0 t0' f0 m") auto
  from a first have la: "lastAttempt m1 = t0'" and fx: "fx = [ReadCookieFile]"
    using onUnauthorized_attempt by blast+
  from a la have second: "onUnauthorized sha256 t1 t1' f1 m1 = (Inr False, m1, [])"
    by (simp add: onUnauthorized_cooldown)
  from a la have third: "onUnauthorized sha256 t2 t2' f2 m1 = (Inr False, m1, [])"
    by (simp add: onUnauthorized_cooldown)
  have run: "refresh_calls sha256 [(t0, t0', f0), (t1, t1', f1), (t2, t2', f2)] m
      = ([r, Inr False, Inr False], m1, [ReadCookieFile])"
    by (simp add: first second third fx)
  show "snd (snd (refresh_calls sha256 [(t0, t0', f0), (t1, t1', f1), (t2, t2', f2)] m)) = [ReadCookieFile]"
    unfolding run by simp
  show "drop 1 (fst (refresh_calls sha256 [(t0, t0', f0), (t1, t1', f1), (t2, t2', f2)] m)) = [Inr False, Inr False]"
    unfolding run by simp
  show "fst (snd (refresh_calls sha256 [(t0, t0', f0), (t1, t1', f1), (t2, t2', f2)] m))
            = fst (snd (onUnauthorized sha256 t0 t0' f0 m))"
    unfolding run first by simp
next
  show "login_invocations (snd (snd (refresh_calls sha256 calls m'))) = 0"
    by (rule refresh_calls_no_login)
qed

theorem cooldown_bounds_credential_reads_witness:
  "(70000::int) - lastAttempt stale_manager < 60000 = False
   \<and> (100000::int) - 70001 < 60000 \<and> (125000::int) - 70001 < 60000
   \<and> snd (snd (refresh_calls toy_hash three_refreshes stale_manager)) = [ReadCookieFile]
   \<and> login_invocations (snd (snd (refresh_calls toy_hash three_refreshes stale_manager))) = 0
   \<and> onUnauthorized toy_hash 100000 100001 (Some (cookie_file ''sid=newer''))
        (fst (snd (onUnauthorized toy_hash 70000 70001 (Some (cookie_file ''sid=new'')) stale_manager)))
       = (Inr False,
          fst (snd (onUnauthorized toy_hash 70000 70001 (Some (cookie_file ''sid=new'')) stale_manager)), [])"
proof -
  have a: "\<not> (70000::int) - lastAttempt stale_manager < 60000" by (simp add: stale_manager_def)
  have b: "(100000::int) - 70001 < 60000" "(125000::int) - 70001 < 60000" by simp_all
  have c: "lastAttempt (fst (snd (onUnauthorized toy_hash 70000 70001 (Some (cookie_file ''sid=new'')) stale_manager))) = 70001"
    by (simp add: onUnauthorized_def fresh_cookie_def cookie_file_def stale_manager_def toy_hash_def)
  note thm1 = cooldown_bounds_credential_reads [where ?now1.0 = 100000 and ?now2.0 = 100001
      and m = "fst (snd (onUnauthorized toy_hash 70000 70001 (Some (cookie_file ''sid=new'')) stale_manager))"
      and ?sha256.0 = toy_hash and cfile = "Some (cookie_file ''sid=newer'')", THEN conjunct1]
  note thm2 = cooldown_bounds_credential_reads [where m = stale_manager and ?sha256.0 = toy_hash
      and ?t0.0 = 70000 and t0' = 70001 and ?t1.0 = 100000 and t1' = 100001
      and ?t2.0 = 125000 and t2' = 125001
      and ?f0.0 = "Some (cookie_file ''sid=new'')" and ?f1.0 = "Some (cookie_file ''sid=newer'')"
      and ?f2.0 = "Some (cookie_file ''sid=newest'')", THEN conjunct2, THEN conjunct1]
  note thm3 = cooldown_bounds_credential_reads [where ?sha256.0 = toy_hash
      and calls = three_refreshes and m' = stale_manager, THEN conjunct2, THEN conjunct2]
  from thm1 thm2 thm3 a b c
  show ?thesis by (simp add: three_refreshes_def)
qed

text \<open>
  The claim counts login invocations. On the three calls above, the first outside the
  cooldown and the other two inside the window it opens, the method reads the cookie
  file once and starts the login not once but never.
\<close>

theorem one_login_invocation_counterexample:
  "\<not> (70000::int) - lastAttempt stale_manager < 60000
   \<and> (100000::int) - 70001 < 60000 \<and> (125000::int) - 70001 < 60000
   \<and> snd (snd (refresh_calls toy_hash three_refreshes stale_manager)) = [ReadCookieFile]
   \<and> login_invocations (snd (snd (refresh_calls toy_hash three_refreshes stale_manager))) \<noteq> 1"
  by (simp add: three_refreshes_def onUnauthorized_def fresh_cookie_def cookie_file_def
        stale_manager_def toy_hash_def login_invocations_def)

section \<open>Choosing the auth strategy\<close>

text \<open>What the three probes decide when a bearer token was captured.\<close>

lemma prober_with_bearer:
  assumes "bearer \<noteq> []"
  shows "test_auth_strategies fetch testUrl cookieHeader csrfHeaders originHeaders (Some bearer) =
     (let c1 = cookie_candidate cookieHeader csrfHeaders originHeaders;
          c2 = spread c1 [(''Authorization'', bearer)];
          c3 = [(''Authorization'', bearer), (''Accept'', ''application/json'')]
      in if reachable (fetch testUrl c1)
         then \<lparr> finalHeaders = c1,
                authStrategy = ''cookie'' @ (if csrfHeaders \<noteq> [] then ''+csrf'' else ''-only'') \<rparr>
         else if reachable (fetch testUrl c2) then \<lparr> finalHeaders = c2, authStrategy = ''cookie+bearer'' \<rparr>
         else if reachable (fetch testUrl c3) then \<lparr> finalHeaders = c3, authStrategy = ''bearer-only'' \<rparr>
         else \<lparr> finalHeaders = c1, authStrategy = ''cookie-only-unverified'' \<rparr>)"
  using assms by (simp add: test_auth_strategies_def Let_def)

text \<open>
  Claim C9, at the input where the code departs from it. No bearer token was captured
  and the server answers 401 to the cookie probe, so no candidate qualifies. The
  cookie candidate is adopted, but under the name \<^verbatim>\<open>cookie-only\<close>, the name of a verified
  cookie strategy without CSRF headers; with a captured bearer the same answers give
  \<^verbatim>\<open>cookie-only-unverified\<close>.
\<close>

theorem no_bearer_failed_probe_is_not_flagged:
  "authStrategy (test_auth_strategies always_401 testUrl cookieHeader csrfHeaders originHeaders None)
     = ''cookie-only''
   \<and> finalHeaders (test_auth_strategies always_401 testUrl cookieHeader csrfHeaders originHeaders None)
     = cookie_candidate cookieHeader csrfHeaders originHeaders
   \<and> \<not> reachable (always_401 testUrl (cookie_candidate cookieHeader csrfHeaders originHeaders))
   \<and> authStrategy (test_auth_strategies always_401 testUrl cookieHeader csrfHeaders originHeaders (Some ''Bearer t''))
     = ''cookie-only-unverified''"
  by (simp add: test_auth_strategies_def always_401_def reachable_def Let_def)

section \<open>A login that never lands\<close>

text \<open>The loop ends by \<^verbatim>\<open>break\<close> only on a page that has landed.\<close>

lemma login_loop_break_is_landing:
  "login_loop b host totp n p = Inr (q, True) \<Longrightarrow> landed b host q"
  by (induction n arbitrary: p) (auto split: if_splits option.splits)

lemma stuck_never_lands: "\<not> landed stuck_browser host p"
  by (simp add: landed_def stuck_browser_def startsWith_def)

lemma stuck_loop: "login_loop stuck_browser host totp n p = Inr (p, False)"
proof (induction n)
  case 0
  show ?case by simp
next
  case (Suc n)
  have e: "find (empty_visible stuck_browser q) sels = None" for q sels
    by (induction sels) (simp_all add: stuck_browser_def)
  have v: "find (visible_button stuck_browser q) sels = None" for q sels
    by (induction sels) (simp_all add: stuck_browser_def)
  have i: "idle stuck_browser q = q" for q by (simp add: stuck_browser_def)
  from Suc show ?case by (cases totp) (simp_all add: stuck_never_lands e v i)
qed

lemma no_screenshot:
  "Screenshot \<notin> set (artifacts (host_auth_main b host instance creds totp cw cwd now p0))"
  by (simp add: host_auth_main_def aborted_def Let_def split: option.splits sum.splits)

lemma stuck_session:
  "capture_session stuck_browser ''corp.example.com'' ''https://corp.example.com'' 1000 ()
     = \<lparr> session.headers = [(''Cookie'', ''buid=x1''), (''Accept'', ''application/json'')],
         capturedAt = 1000, instanceUrl = ''https://corp.example.com'',
         cookieCount = 1, hasCsrfToken = False \<rparr>"
  by (simp add: capture_session_def stuck_browser_def spread_def startsWith_def Let_def)

text \<open>
  Claim C4 (as amended). When the login loop uses up its 25 steps without landing, the
  run goes on as after a landing: it navigates to the target if the page is off the
  target host and, unless that navigation or the file write throws, writes the session
  artifact (and its copy in the working directory, if writable) and ends with exit
  code 0. No run, whatever happens in it, leaves a screenshot.
\<close>

theorem exhausted_login_writes_session:
  assumes "creds" and "goto b p0 = Some p1"
    and "login_loop b host totp 25 p1 = Inr (p, False)"
    and "(if \<not> str_includes (url b p) host then goto b p else Some p) = Some p2"
  shows "host_auth_main b host instance creds totp True cwd_writable now p0
           = \<lparr> exit_code = 0,
               artifacts = CookieFile (capture_session b host instance now p2)
                 # (if cwd_writable then [CookieCache (capture_session b host instance now p2)] else []) \<rparr>
         \<and> Screenshot \<notin> set (artifacts (host_auth_main b host instance creds totp cw cwd now' p0'))"
proof
  from assms show "host_auth_main b host instance creds totp True cwd_writable now p0
           = \<lparr> exit_code = 0,
               artifacts = CookieFile (capture_session b host instance now p2)
                 # (if cwd_writable then [CookieCache (capture_session b host instance now p2)] else []) \<rparr>"
    unfolding host_auth_main_def by (auto simp: Let_def simp del: login_loop.simps split: if_splits)
  show "Screenshot \<notin> set (artifacts (host_auth_main b host instance creds totp cw cwd now' p0'))"
    by (rule no_screenshot)
qed

theorem exhausted_login_writes_session_witness:
  "goto stuck_browser () = Some ()
   \<and> login_loop stuck_browser ''corp.example.com'' False 25 () = Inr ((), False)
   \<and> host_auth_main stuck_browser ''corp.example.com'' ''https://corp.example.com'' True False True True 1000 ()
       = \<lparr> exit_code = 0,
           artifacts = [CookieFile (capture_session stuck_browser ''corp.example.com'' ''https://corp.example.com'' 1000 ()),
                        CookieCache (capture_session stuck_browser ''corp.example.com'' ''https://corp.example.com'' 1000 ())] \<rparr>"
proof -
  have g: "goto stuck_browser () = Some ()" by (simp add: stuck_browser_def)
  have l: "login_loop stuck_browser ''corp.example.com'' False 25 () = Inr ((), False)"
    by (rule stuck_loop)
  have n: "(if \<not> str_includes (url stuck_browser ()) ''corp.example.com''
            then goto stuck_browser () else Some ()) = Some ()"
    by (simp add: stuck_browser_def)
  from exhausted_login_writes_session [OF TrueI g l n, of "''https://corp.example.com''" True 1000] g l
  show ?thesis by simp
qed

text \<open>
  The claim as stated fails on a browser that stays on the identity provider's page:
  the loop runs out of steps, yet the run succeeds and writes both session files with
  the cookies of the identity provider, and the artifacts are not a lone screenshot.
\<close>

theorem exhausted_login_counterexample:
  "login_loop stuck_browser ''corp.example.com'' False 25 () = Inr ((), False)
   \<and> exit_code (host_auth_main stuck_browser ''corp.example.com'' ''https://corp.example.com'' True False True True 1000 ()) = 0
   \<and> artifacts (host_auth_main stuck_browser ''corp.example.com'' ''https://corp.example.com'' True False True True 1000 ())
       = [CookieFile \<lparr> session.headers = [(''Cookie'', ''buid=x1''), (''Accept'', ''application/json'')],
                        capturedAt = 1000, instanceUrl = ''https://corp.example.com'',
                        cookieCount = 1, hasCsrfToken = False \<rparr>,
          CookieCache \<lparr> session.headers = [(''Cookie'', ''buid=x1''), (''Accept'', ''application/json'')],
                        capturedAt = 1000, instanceUrl = ''https://corp.example.com'',
                        cookieCount = 1, hasCsrfToken = False \<rparr>]
   \<and> artifacts (host_auth_main stuck_browser ''corp.example.com'' ''https://corp.example.com'' True False True True 1000 ())
       \<noteq> [Screenshot]"
proof -
  have g: "goto stuck_browser () = Some ()" by (simp add: stuck_browser_def)
  have m: "host_auth_main stuck_browser ''corp.example.com'' ''https://corp.example.com'' True False True True 1000 ()
      = \<lparr> exit_code = 0,
          artifacts = [CookieFile (capture_session stuck_browser ''corp.example.com'' ''https://corp.example.com'' 1000 ()),
                       CookieCache (capture_session stuck_browser ''corp.example.com'' ''https://corp.example.com'' 1000 ())] \<rparr>"
    unfolding host_auth_main_def by (simp add: g stuck_loop Let_def del: login_loop.simps)
  show ?thesis by (simp add: m stuck_session stuck_loop del: login_loop.simps)
qed

end
